theory Spec2Isabelle
  imports Main "HOL-Library.AList" "HOL-Library.Sublist"
begin

section \<open>Values, errors and the collaborators of the identity switch\<close>

text \<open>
  The configuration is a Python dictionary. The entry \<^verbatim>\<open>tsi.switch_uid\<close> is read
  with a default and tested for truth, and the properties file stores it as the raw
  string of the line (it is not one of the \<^verbatim>\<open>boolean_keys\<close> of
  \<^verbatim>\<open>process_config_value\<close>), so its value is kept as a Python value.
\<close>

datatype pyval = PyBool bool | PyInt int | PyStr string

fun truthy :: "pyval \<Rightarrow> bool" where
  "truthy (PyBool b) = b"
| "truthy (PyInt i) = (i \<noteq> 0)"
| "truthy (PyStr s) = (s \<noteq> [])"

text \<open>
  Every \<^verbatim>\<open>raise\<close> of the two modules is a constructor that carries the values its
  message is formatted from; the other constructors are the exceptions of the
  interpreter and of the \<^verbatim>\<open>os\<close> module that the code can meet.
\<close>

datatype error =
    RootNotSettingUids
  | UnknownUser string
  | CommandAsRoot string
  | UnknownPrimaryGroup string
  | UnknownSupplementaryGroup string
  | NotAMember string string
  | CouldNotSetUid string int
  | CouldNotSetGid string int
  | CouldNotSetGroups string "int list" "nat set"
  | NoUserGroupInfo
  | SwitchStatus bool
  | IndexError
  | KeyError string
  | UnboundLocalError string
  | OverflowError
  | PermissionError string
  | OSError string
  | OtherError string

text \<open>
  \<^verbatim>\<open>UserCache\<close> is imported by \<^verbatim>\<open>BecomeUser.py\<close>; the identity switch only calls
  its six lookups, which are taken as parameters. A lookup answers \<open>-1\<close> for a name
  the operating system does not know. Within one request the lookups are functions
  of the name.
\<close>

record user_cache =
  get_uid_4user :: "string \<Rightarrow> int"
  get_gid_4user :: "string \<Rightarrow> int"
  get_gids_4user :: "string \<Rightarrow> int list"
  get_home_4user :: "string \<Rightarrow> string"
  get_gid_4group :: "string \<Rightarrow> int"
  get_members_4group :: "string \<Rightarrow> string list"

text \<open>
  The keys of the configuration that the identity switch and the dispatcher read.
  \<^verbatim>\<open>setup_defaults\<close> stores the booleans before the file is read, and
  \<^verbatim>\<open>initialize\<close> stores the effective ids and the cache, so these are fields;
  \<^verbatim>\<open>tsi.switch_uid\<close> and \<^verbatim>\<open>tsi.userCacheTtl\<close> are read with \<^verbatim>\<open>config.get\<close> and may
  be absent.
\<close>

record config =
  tsi_switch_uid :: "pyval option"
  tsi_effective_uid :: nat
  tsi_effective_gid :: nat
  tsi_enforce_os_gids :: bool
  tsi_fail_on_invalid_gids :: bool
  tsi_use_id_to_resolve_gids :: bool
  tsi_open_user_sessions :: bool
  tsi_userCacheTtl :: "pyval option"
  tsi_user_cache :: user_cache

section \<open>The process identity and the calls of the os module\<close>

text \<open>
  The identity of the process as the kernel holds it: real, effective and saved user
  and group ids, the supplementary groups, and the environment. The ids of the kernel
  are unsigned; the Python integers handed to a call may be negative.
\<close>

record process =
  ruid :: nat
  euid :: nat
  suid :: nat
  rgid :: nat
  egid :: nat
  sgid :: nat
  groups :: "nat list"
  environ :: "string \<rightharpoonup> string"

text \<open>
  The calls follow setgid(2), setgroups(2), setegid(3) and setresuid(2) of Linux for a
  process whose privilege is its effective user id 0: a privileged \<^verbatim>\<open>setgid\<close> sets the
  real, effective and saved group id, an unprivileged one only the effective group id
  and only to the real or saved one; \<^verbatim>\<open>setgroups\<close> needs privilege; \<^verbatim>\<open>setresuid\<close>
  leaves a field whose argument is \<open>-1\<close> as it is. A refused call raises and leaves the
  process as it was.
\<close>

definition privileged :: "process \<Rightarrow> bool" where
  "privileged p = (euid p = 0)"

definition os_setgid :: "int \<Rightarrow> process \<Rightarrow> (error + unit) \<times> process" where
  "os_setgid g p =
     (if g < - 1 then (Inl OverflowError, p)
      else if g = - 1 then (Inl (OSError ''setgid''), p)
      else if privileged p then (Inr (), p\<lparr>rgid := nat g, egid := nat g, sgid := nat g\<rparr>)
      else if nat g = rgid p \<or> nat g = sgid p then (Inr (), p\<lparr>egid := nat g\<rparr>)
      else (Inl (PermissionError ''setgid''), p))"

definition os_setgroups :: "int list \<Rightarrow> process \<Rightarrow> (error + unit) \<times> process" where
  "os_setgroups gs p =
     (if list_ex (\<lambda>g. g < - 1) gs then (Inl OverflowError, p)
      else if \<not> privileged p then (Inl (PermissionError ''setgroups''), p)
      else if list_ex (\<lambda>g. g = - 1) gs then (Inl (OSError ''setgroups''), p)
      else (Inr (), p\<lparr>groups := map nat gs\<rparr>))"

definition os_setegid :: "int \<Rightarrow> process \<Rightarrow> (error + unit) \<times> process" where
  "os_setegid g p =
     (if g < - 1 then (Inl OverflowError, p)
      else if g = - 1 then (Inl (OSError ''setegid''), p)
      else if privileged p \<or> nat g = rgid p \<or> nat g = egid p \<or> nat g = sgid p
        then (Inr (), p\<lparr>egid := nat g\<rparr>)
      else (Inl (PermissionError ''setegid''), p))"

definition uid_permitted :: "process \<Rightarrow> int \<Rightarrow> bool" where
  "uid_permitted p u = (u = - 1 \<or> nat u = ruid p \<or> nat u = euid p \<or> nat u = suid p)"

definition os_setresuid :: "int \<Rightarrow> int \<Rightarrow> int \<Rightarrow> process \<Rightarrow> (error + unit) \<times> process" where
  "os_setresuid r e s p =
     (if r < - 1 \<or> e < - 1 \<or> s < - 1 then (Inl OverflowError, p)
      else if privileged p \<or> (uid_permitted p r \<and> uid_permitted p e \<and> uid_permitted p s)
        then (Inr (), p\<lparr>ruid := (if r = - 1 then ruid p else nat r),
                         euid := (if e = - 1 then euid p else nat e),
                         suid := (if s = - 1 then suid p else nat s)\<rparr>)
      else (Inl (PermissionError ''setresuid''), p))"

definition os_environ_set :: "string \<Rightarrow> string \<Rightarrow> process \<Rightarrow> process" where
  "os_environ_set k v p = p\<lparr>environ := (environ p)(k \<mapsto> v)\<rparr>"

text \<open>
  Sequencing of calls that change a state and may raise: the first exception
  ends the sequence, with the state as it is at that point.
\<close>

definition and_then ::
  "('s \<Rightarrow> (error + 'a) \<times> 's) \<Rightarrow> ('a \<Rightarrow> 's \<Rightarrow> (error + 'b) \<times> 's) \<Rightarrow>
   's \<Rightarrow> (error + 'b) \<times> 's" where
  "and_then m k p = (case m p of (Inl e, p') \<Rightarrow> (Inl e, p') | (Inr x, p') \<Rightarrow> k x p')"

section \<open>BecomeUser.py\<close>

text \<open>
  The calls of the logger write a line and do not change what a function returns or
  raises; they are left out.
\<close>

text \<open>
  \<^verbatim>\<open>initialize(config, LOG)\<close>: \<open>UserCache\<close> stands for the constructor of the cache,
  \<open>p\<close> for the process at the call. No statement of the function raises.
\<close>

definition initialize ::
  "(pyval \<Rightarrow> bool \<Rightarrow> user_cache) \<Rightarrow> config \<Rightarrow> process \<Rightarrow> error + config" where
  "initialize UserCache c p =
     (let c1 = c\<lparr>tsi_effective_uid := euid p, tsi_effective_gid := egid p\<rparr>;
          switch_uid = (case tsi_switch_uid c1 of None \<Rightarrow> True | Some v \<Rightarrow> truthy v);
          c2 = (if switch_uid \<or> euid p = 0
                then c1\<lparr>tsi_switch_uid := Some (PyBool True)\<rparr>
                else c1\<lparr>tsi_switch_uid := Some (PyBool False)\<rparr>);
          cache_ttl = (case tsi_userCacheTtl c2 of None \<Rightarrow> PyInt 600 | Some v \<Rightarrow> v);
          use_id = tsi_use_id_to_resolve_gids c2
      in Inr (c2\<lparr>tsi_user_cache := UserCache cache_ttl use_id\<rparr>))"

definition check_membership :: "string \<Rightarrow> int \<Rightarrow> string \<Rightarrow> config \<Rightarrow> bool" where
  "check_membership grp group_gid user c =
     (let cache = tsi_user_cache c in
      if tsi_enforce_os_gids c \<and> group_gid \<noteq> get_gid_4user cache user
      then (if user \<notin> set (get_members_4group cache grp) then False else True)
      else True)"

definition get_primary_group ::
  "string \<Rightarrow> string \<Rightarrow> user_cache \<Rightarrow> bool \<Rightarrow> config \<Rightarrow> error + int" where
  "get_primary_group primary user cache fail_on_invalid_gids c =
     (if primary = ''DEFAULT_GID'' then Inr (get_gid_4user cache user)
      else
        let new_gid = get_gid_4group cache primary in
        if new_gid = - 1 \<and> fail_on_invalid_gids then Inl (UnknownPrimaryGroup primary)
        else
          let new_gid = (if new_gid = - 1 then get_gid_4user cache user else new_gid) in
          if \<not> check_membership primary new_gid user c
          then (if fail_on_invalid_gids then Inl (NotAMember user primary)
                else Inr (get_gid_4user cache user))
          else Inr new_gid)"

text \<open>
  The dictionary \<^verbatim>\<open>sup_gids\<close> is an association list in insertion order, which is the
  order in which Python iterates over it. \<open>sup_gids_loop\<close> is the loop over
  \<^verbatim>\<open>requested_groups\<close>, with the dictionary and the flag \<^verbatim>\<open>added_default\<close> as they are
  when the rest of the list is still to be read.
\<close>

fun sup_gids_loop ::
  "config \<Rightarrow> string \<Rightarrow> string list \<Rightarrow> (int \<times> bool) list \<Rightarrow> bool \<Rightarrow> error + (int \<times> bool) list" where
  "sup_gids_loop c user [] sup_gids added_default = Inr sup_gids"
| "sup_gids_loop c user (g # rest) sup_gids added_default =
     (if g = ''DEFAULT_GID'' then
        (if \<not> added_default
         then sup_gids_loop c user rest
                (fold (\<lambda>d. AList.update d True) (get_gids_4user (tsi_user_cache c) user) sup_gids) True
         else sup_gids_loop c user rest sup_gids added_default)
      else
        let tmp = get_gid_4group (tsi_user_cache c) g in
        if tmp = - 1 then
          (if tsi_fail_on_invalid_gids c then Inl (UnknownSupplementaryGroup g)
           else sup_gids_loop c user rest sup_gids added_default)
        else if \<not> check_membership g tmp user c then
          (if tsi_fail_on_invalid_gids c then Inl (NotAMember user g)
           else sup_gids_loop c user rest (AList.update tmp True sup_gids) added_default)
        else sup_gids_loop c user rest (AList.update tmp True sup_gids) added_default)"

definition get_supplementary_groups ::
  "string list \<Rightarrow> int \<Rightarrow> string \<Rightarrow> config \<Rightarrow> error + int list" where
  "get_supplementary_groups requested_groups primary user c =
     (case sup_gids_loop c user requested_groups [(primary, True)] False of
        Inl e \<Rightarrow> Inl e
      | Inr sup_gids \<Rightarrow> Inr (map fst (filter snd sup_gids)))"

text \<open>
  The identity change of \<^verbatim>\<open>become_user\<close> (the four calls, the three comparisons and
  the environment), as one sequence.
\<close>

definition change_identity ::
  "string \<Rightarrow> int \<Rightarrow> int \<Rightarrow> int list \<Rightarrow> config \<Rightarrow> process \<Rightarrow> (error + bool) \<times> process" where
  "change_identity user new_uid new_gid new_gids c =
     and_then (os_setgid new_gid) (\<lambda>_.
     and_then (os_setgroups new_gids) (\<lambda>_.
     and_then (os_setegid new_gid) (\<lambda>_.
     and_then (os_setresuid new_uid new_uid (int (tsi_effective_uid c))) (\<lambda>_ p.
       if (int (ruid p), int (euid p)) \<noteq> (new_uid, new_uid)
         then (Inl (CouldNotSetUid user new_uid), p)
       else if (int (rgid p), int (egid p)) \<noteq> (new_gid, new_gid)
         then (Inl (CouldNotSetGid user new_gid), p)
       else if int ` set (groups p) \<noteq> set new_gids
         then (Inl (CouldNotSetGroups user new_gids (set (groups p))), p)
       else (Inr True,
             os_environ_set ''LOGNAME'' user
               (os_environ_set ''USER'' user
                 (os_environ_set ''HOME'' (get_home_4user (tsi_user_cache c) user) p)))))))"

definition become_user ::
  "string \<Rightarrow> string list \<Rightarrow> config \<Rightarrow> process \<Rightarrow> (error + bool) \<times> process" where
  "become_user user requested_groups c p =
     (case tsi_switch_uid c of
        None \<Rightarrow> (Inl (KeyError ''tsi.switch_uid''), p)
      | Some setting_uids \<Rightarrow>
     (case requested_groups of
        [] \<Rightarrow> (Inl IndexError, p)
      | primary # _ \<Rightarrow>
          if \<not> truthy setting_uids then
            (if tsi_effective_uid c = 0 then (Inl RootNotSettingUids, p) else (Inr True, p))
          else
            let cache = tsi_user_cache c;
                fail_on_invalid_gids = tsi_fail_on_invalid_gids c;
                new_uid = get_uid_4user cache user
            in
            if new_uid = - 1 then (Inl (UnknownUser user), p)
            else if new_uid = 0 then (Inl (CommandAsRoot user), p)
            else if primary = ''NONE'' then
              change_identity user new_uid (get_gid_4user cache user) (get_gids_4user cache user) c p
            else
              (case get_primary_group primary user cache fail_on_invalid_gids c of
                 Inl e \<Rightarrow> (Inl e, p)
               | Inr new_gid \<Rightarrow>
                   (case get_supplementary_groups requested_groups new_gid user c of
                      Inl e \<Rightarrow> (Inl e, p)
                    | Inr new_gids \<Rightarrow> change_identity user new_uid new_gid new_gids c p))))"

definition restore_id :: "config \<Rightarrow> process \<Rightarrow> (error + unit) \<times> process" where
  "restore_id c p =
     (let e = int (tsi_effective_uid c); g = int (tsi_effective_gid c) in
      case tsi_switch_uid c of
        None \<Rightarrow> (Inl (KeyError ''tsi.switch_uid''), p)
      | Some setting_uids \<Rightarrow>
          if truthy setting_uids then
            and_then (os_setresuid e e e) (\<lambda>_.
            and_then (os_setgid g) (\<lambda>_.
            and_then (os_setgroups [g]) (\<lambda>_.
            and_then (os_setegid g) (\<lambda>_ q.
              (Inr (),
               os_environ_set ''LOGNAME'' ''nobody''
                 (os_environ_set ''USER'' ''nobody''
                   (os_environ_set ''HOME'' ''/tmp'' q))))))) p
          else (Inr (), p))"

section \<open>TSI.py\<close>

text \<open>
  The handlers of the registry. The functions of \<^verbatim>\<open>IO\<close>, \<^verbatim>\<open>UFTP\<close>, \<^verbatim>\<open>Reservation\<close>,
  \<^verbatim>\<open>ACL\<close> and of the batch system are collaborators; the registry only refers to
  them. \<^verbatim>\<open>init_functions\<close> builds a dictionary literal, which Python iterates in the
  order it is written.
\<close>

datatype handler =
    ping | ping_uid | execute_script
  | IO_get_file_chunk | IO_put_file_chunk | IO_ls | IO_df
  | UFTP_uftp
  | bss_submit | bss_get_status_listing | bss_get_process_listing | bss_get_job_details
  | bss_abort_job | bss_hold_job | bss_resume_job | bss_get_budget
  | Reservation_make_reservation | Reservation_query_reservation
  | Reservation_cancel_reservation
  | ACL_process_acl

definition init_functions :: "(string \<times> handler) list" where
  "init_functions =
     [(''TSI_PING'', ping),
      (''TSI_PING_UID'', ping_uid),
      (''TSI_EXECUTESCRIPT'', execute_script),
      (''TSI_GETFILECHUNK'', IO_get_file_chunk),
      (''TSI_PUTFILECHUNK'', IO_put_file_chunk),
      (''TSI_LS'', IO_ls),
      (''TSI_DF'', IO_df),
      (''TSI_UFTP'', UFTP_uftp),
      (''TSI_SUBMIT'', bss_submit),
      (''TSI_GETSTATUSLISTING'', bss_get_status_listing),
      (''TSI_GETPROCESSLISTING'', bss_get_process_listing),
      (''TSI_GETJOBDETAILS'', bss_get_job_details),
      (''TSI_ABORTJOB'', bss_abort_job),
      (''TSI_HOLDJOB'', bss_hold_job),
      (''TSI_RESUMEJOB'', bss_resume_job),
      (''TSI_GET_COMPUTE_BUDGET'', bss_get_budget),
      (''TSI_MAKE_RESERVATION'', Reservation_make_reservation),
      (''TSI_QUERY_RESERVATION'', Reservation_query_reservation),
      (''TSI_CANCEL_RESERVATION'', Reservation_cancel_reservation),
      (''TSI_FILE_ACL'', ACL_process_acl)]"

text \<open>
  \<^verbatim>\<open>re.search(r".*#%s\n" % cmd, message, re.M)\<close>: a command name has no character
  that is special in a pattern, \<^verbatim>\<open>.*\<close> may match nothing, and the search tries every
  position, so there is a match exactly when \<^verbatim>\<open>#cmd\<close> followed by a newline occurs
  in the message.
\<close>

fun occurs_in :: "string \<Rightarrow> string \<Rightarrow> bool" where
  "occurs_in pat [] = (pat = [])"
| "occurs_in pat (c # cs) = (prefix pat (c # cs) \<or> occurs_in pat cs)"

definition have_cmd :: "string \<Rightarrow> string \<Rightarrow> bool" where
  "have_cmd cmd message = occurs_in (''#'' @ cmd @ [CHR 0x0A]) message"

text \<open>
  The loop of \<^verbatim>\<open>process\<close> that looks for the command: it runs over the registry and
  stops at the first command whose pattern matches. \<open>None\<close> is the case in which
  \<^verbatim>\<open>command\<close> and \<^verbatim>\<open>function\<close> stay \<^verbatim>\<open>None\<close>.
\<close>

fun select_command :: "(string \<times> 'f) list \<Rightarrow> string \<Rightarrow> (string \<times> 'f) option" where
  "select_command [] message = None"
| "select_command ((cmd, f) # functions) message =
     (if have_cmd cmd message then Some (cmd, f) else select_command functions message)"

text \<open>
  The lines of a message that end in a newline, without the newline; what follows the
  last newline is not such a line.
\<close>

fun terminated_lines :: "string \<Rightarrow> string \<Rightarrow> string list" where
  "terminated_lines cur [] = []"
| "terminated_lines cur (ch # cs) =
     (if ch = CHR 0x0A then rev cur # terminated_lines [] cs
      else terminated_lines (ch # cur) cs)"

text \<open>
  What the specification words as the dispatch rule: the first line of the message
  that ends in the tag of a registered command names the command.
\<close>

definition tag_of_line :: "(string \<times> 'f) list \<Rightarrow> string \<Rightarrow> string option" where
  "tag_of_line functions line = find (\<lambda>cmd. suffix (''#'' @ cmd) line) (map fst functions)"

definition first_tag_line_command :: "(string \<times> 'f) list \<Rightarrow> string \<Rightarrow> string option" where
  "first_tag_line_command functions message =
     (case find (\<lambda>line. tag_of_line functions line \<noteq> None) (terminated_lines [] message) of
        None \<Rightarrow> None
      | Some line \<Rightarrow> tag_of_line functions line)"











definition config_get_switch_uid :: "config \<Rightarrow> bool" where
  "config_get_switch_uid c = (case tsi_switch_uid c of None \<Rightarrow> True | Some v \<Rightarrow> truthy v)"




section \<open>A concrete system\<close>

text \<open>
  The system of the scenarios: alice has uid 1001 and the primary group users (100),
  and is a member of devs (500) but not of admins (600); the worker runs as root.
\<close>

definition example_cache :: user_cache where
  "example_cache =
     \<lparr>get_uid_4user = (\<lambda>u. if u = ''alice'' then 1001 else if u = ''root'' then 0 else - 1),
      get_gid_4user = (\<lambda>u. if u = ''alice'' then 100 else if u = ''root'' then 0 else - 1),
      get_gids_4user = (\<lambda>u. if u = ''alice'' then [100, 500] else if u = ''root'' then [0] else []),
      get_home_4user =
        (\<lambda>u. if u = ''alice'' then ''/home/alice'' else if u = ''root'' then ''/root'' else []),
      get_gid_4group =
        (\<lambda>g. if g = ''users'' then 100 else if g = ''devs'' then 500
              else if g = ''admins'' then 600 else - 1),
      get_members_4group =
        (\<lambda>g. if g = ''devs'' then [''alice''] else if g = ''admins'' then [''bob''] else [])\<rparr>"

definition example_UserCache :: "pyval \<Rightarrow> bool \<Rightarrow> user_cache" where
  "example_UserCache cache_ttl use_id = example_cache"

definition example_config :: config where
  "example_config =
     \<lparr>tsi_switch_uid = Some (PyBool True), tsi_effective_uid = 0, tsi_effective_gid = 0,
      tsi_enforce_os_gids = True, tsi_fail_on_invalid_gids = False,
      tsi_use_id_to_resolve_gids = False, tsi_open_user_sessions = False,
      tsi_userCacheTtl = Some (PyInt 600), tsi_user_cache = example_cache\<rparr>"

definition strict_config :: config where
  "strict_config = example_config\<lparr>tsi_fail_on_invalid_gids := True\<rparr>"

definition no_switch_config :: config where
  "no_switch_config = example_config\<lparr>tsi_switch_uid := Some (PyBool False)\<rparr>"


definition root_process :: process where
  "root_process =
     \<lparr>ruid = 0, euid = 0, suid = 0, rgid = 0, egid = 0, sgid = 0, groups = [0],
      environ = Map.empty\<rparr>"







section \<open>Auxiliary facts\<close>


lemma and_then_Inl:
  "fst (and_then m k s) = Inl e \<Longrightarrow> fst (m s) = Inl e \<or> (\<exists>x s1. fst (k x s1) = Inl e)"
  by (auto simp: and_then_def split: prod.splits sum.splits)

lemma os_calls_not_root_error:
  "fst (os_setgid g p) \<noteq> Inl RootNotSettingUids"
  "fst (os_setgroups gs p) \<noteq> Inl RootNotSettingUids"
  "fst (os_setegid g p) \<noteq> Inl RootNotSettingUids"
  "fst (os_setresuid r e s p) \<noteq> Inl RootNotSettingUids"
  by (simp_all add: os_setgid_def os_setgroups_def os_setegid_def os_setresuid_def)

lemma change_identity_not_root_error:
  "fst (change_identity user new_uid new_gid new_gids c p) \<noteq> Inl RootNotSettingUids"
proof
  assume a: "fst (change_identity user new_uid new_gid new_gids c p) = Inl RootNotSettingUids"
  show False
    using a os_calls_not_root_error unfolding change_identity_def
    by (auto dest!: and_then_Inl split: if_splits)
qed

lemma get_primary_group_not_root_error:
  "get_primary_group primary user cache fail c \<noteq> Inl RootNotSettingUids"
  by (simp add: get_primary_group_def Let_def)

lemma sup_gids_loop_not_root_error:
  "sup_gids_loop c user gs d added \<noteq> Inl RootNotSettingUids"
  by (induction gs arbitrary: d added) (simp_all add: Let_def)

lemma get_supplementary_groups_not_root_error:
  "get_supplementary_groups gs primary user c \<noteq> Inl RootNotSettingUids"
  using sup_gids_loop_not_root_error [of c user gs "[(primary, True)]" False]
  by (auto simp: get_supplementary_groups_def split: sum.splits)

lemma become_user_root_error:
  assumes "fst (become_user user requested_groups c q) = Inl RootNotSettingUids"
  shows "\<exists>v. tsi_switch_uid c = Some v \<and> \<not> truthy v \<and> tsi_effective_uid c = 0"
  using assms change_identity_not_root_error get_primary_group_not_root_error
    get_supplementary_groups_not_root_error
  by (auto simp: become_user_def Let_def split: option.splits list.splits if_splits sum.splits)

lemma update_True_all:
  "\<forall>x \<in> set d. snd x \<Longrightarrow> \<forall>x \<in> set (AList.update k True d). snd x"
  by (induction d) auto

lemma fold_update_keys:
  "fst ` set (fold (\<lambda>x. AList.update x True) xs d) = fst ` set d \<union> set xs"
  by (induction xs arbitrary: d) (auto simp: dom_update)

lemma fold_update_True_all:
  "\<forall>x \<in> set d. snd x \<Longrightarrow> \<forall>x \<in> set (fold (\<lambda>x. AList.update x True) xs d). snd x"
proof (induction xs arbitrary: d)
  case Nil
  then show ?case by simp
next
  case (Cons a xs)
  from Cons.IH [OF update_True_all [OF Cons.prems, of a]] show ?case by simp
qed

lemma sup_gids_loop_True_all:
  "sup_gids_loop c user gs d added = Inr d' \<Longrightarrow> \<forall>x \<in> set d. snd x \<Longrightarrow> \<forall>x \<in> set d'. snd x"
proof (induction gs arbitrary: d added)
  case Nil
  then show ?case by simp
next
  case (Cons g gs)
  have "\<exists>d1 a1. sup_gids_loop c user gs d1 a1 = Inr d' \<and> (\<forall>x \<in> set d1. snd x)"
  proof (cases "g = ''DEFAULT_GID''")
    case True
    with Cons.prems fold_update_True_all [OF Cons.prems(2)] show ?thesis
      by (cases added) auto
  next
    case False
    with Cons.prems update_True_all [OF Cons.prems(2)] show ?thesis
      by (auto simp: Let_def split: if_splits)
  qed
  with Cons.IH show ?case by blast
qed

lemma sup_gids_loop_added:
  "sup_gids_loop c user gs d True =
     sup_gids_loop c user (filter (\<lambda>g. g \<noteq> ''DEFAULT_GID'') gs) d True"
  by (induction gs arbitrary: d) (simp_all add: Let_def)

lemma sup_gids_loop_keys:
  "(sup_gids_loop c user (filter (\<lambda>g. g \<noteq> ''DEFAULT_GID'') gs) [] True = Inl e \<longrightarrow>
      sup_gids_loop c user gs d added = Inl e) \<and>
   (sup_gids_loop c user (filter (\<lambda>g. g \<noteq> ''DEFAULT_GID'') gs) [] True = Inr d0 \<longrightarrow>
      (\<exists>d'. sup_gids_loop c user gs d added = Inr d' \<and>
         fst ` set d' = fst ` set d \<union> fst ` set d0 \<union>
           (if \<not> added \<and> ''DEFAULT_GID'' \<in> set gs
            then set (get_gids_4user (tsi_user_cache c) user) else {})))"
proof (induction gs arbitrary: d added e d0)
  case Nil
  then show ?case by simp
next
  case (Cons g gs)
  let ?ns = "filter (\<lambda>g. g \<noteq> ''DEFAULT_GID'') gs"
  show ?case
  proof (cases "g = ''DEFAULT_GID''")
    case True
    show ?thesis
    proof (cases added)
      case True
      with \<open>g = ''DEFAULT_GID''\<close> Cons.IH [of e d True d0] show ?thesis by simp
    next
      case False
      with \<open>g = ''DEFAULT_GID''\<close>
        Cons.IH [of e "fold (\<lambda>d. AList.update d True) (get_gids_4user (tsi_user_cache c) user) d" True d0]
      show ?thesis by (auto simp: fold_update_keys)
    qed
  next
    case False
    let ?tmp = "get_gid_4group (tsi_user_cache c) g"
    consider (skip) "?tmp = - 1" "\<not> tsi_fail_on_invalid_gids c"
      | (unknown) "?tmp = - 1" "tsi_fail_on_invalid_gids c"
      | (refused) "?tmp \<noteq> - 1" "\<not> check_membership g ?tmp user c" "tsi_fail_on_invalid_gids c"
      | (added) "?tmp \<noteq> - 1" "check_membership g ?tmp user c \<or> \<not> tsi_fail_on_invalid_gids c"
      by blast
    then show ?thesis
    proof cases
      case skip
      with False Cons.IH [of e d added d0] show ?thesis by (simp add: Let_def)
    next
      case unknown
      with False show ?thesis by (simp add: Let_def)
    next
      case refused
      with False show ?thesis by (simp add: Let_def)
    next
      case added
      have l: "sup_gids_loop c user (g # gs) d added =
                 sup_gids_loop c user gs (AList.update ?tmp True d) added"
        using added False by (auto simp: Let_def)
      have "sup_gids_loop c user (g # ?ns) [] True = sup_gids_loop c user ?ns [(?tmp, True)] True"
        using added False by (auto simp: Let_def)
      with False sup_gids_loop_added [of c user gs "[(?tmp, True)]"]
      have r: "sup_gids_loop c user (filter (\<lambda>g. g \<noteq> ''DEFAULT_GID'') (g # gs)) [] True =
                 sup_gids_loop c user gs [(?tmp, True)] True"
        by simp
      have m: "''DEFAULT_GID'' \<in> set (g # gs) \<longleftrightarrow> ''DEFAULT_GID'' \<in> set gs"
        using False by auto
      show ?thesis
      proof (cases "sup_gids_loop c user ?ns [] True")
        case (Inl e')
        with Cons.IH [of e' "[(?tmp, True)]" True d0] Cons.IH [of e' "AList.update ?tmp True d" added d0]
        show ?thesis unfolding l r m by simp
      next
        case (Inr d1)
        from Inr Cons.IH [of e "[(?tmp, True)]" True d1]
        obtain d2 where d2: "sup_gids_loop c user gs [(?tmp, True)] True = Inr d2"
          "fst ` set d2 = {?tmp} \<union> fst ` set d1" by auto
        from Inr Cons.IH [of e "AList.update ?tmp True d" added d1]
        obtain d3 where d3: "sup_gids_loop c user gs (AList.update ?tmp True d) added = Inr d3"
          "fst ` set d3 = fst ` set (AList.update ?tmp True d) \<union> fst ` set d1 \<union>
             (if \<not> added \<and> ''DEFAULT_GID'' \<in> set gs
              then set (get_gids_4user (tsi_user_cache c) user) else {})" by auto
        show ?thesis unfolding l r m using d2 d3 by (auto simp: dom_update)
      qed
    qed
  qed
qed

lemma get_supplementary_groups_set:
  assumes "''DEFAULT_GID'' \<in> set gs"
  shows "map_sum id set (get_supplementary_groups gs primary user c) =
     map_sum id (\<lambda>d0. insert primary (fst ` set d0 \<union> set (get_gids_4user (tsi_user_cache c) user)))
       (sup_gids_loop c user (filter (\<lambda>g. g \<noteq> ''DEFAULT_GID'') gs) [] True)"
proof (cases "sup_gids_loop c user (filter (\<lambda>g. g \<noteq> ''DEFAULT_GID'') gs) [] True")
  case (Inl e)
  with sup_gids_loop_keys [of c user gs e "[(primary, True)]" False]
  show ?thesis by (simp add: get_supplementary_groups_def)
next
  case (Inr d0)
  with sup_gids_loop_keys [of c user gs _ "[(primary, True)]" False d0] assms
  obtain d' where d': "sup_gids_loop c user gs [(primary, True)] False = Inr d'"
    "fst ` set d' = insert primary (fst ` set d0 \<union> set (get_gids_4user (tsi_user_cache c) user))"
    by auto
  from sup_gids_loop_True_all [OF d'(1)] have "filter snd d' = d'" by simp
  with d' Inr show ?thesis by (simp add: get_supplementary_groups_def)
qed

lemma sup_gids_loop_refuses:
  assumes "tsi_enforce_os_gids c" and "tsi_fail_on_invalid_gids c"
    and "g \<in> set gs" and "g \<noteq> ''DEFAULT_GID''"
    and "user \<notin> set (get_members_4group (tsi_user_cache c) g)"
    and "get_gid_4group (tsi_user_cache c) g \<noteq> get_gid_4user (tsi_user_cache c) user"
  shows "\<exists>e. sup_gids_loop c user gs d added = Inl e"
  using assms(3)
proof (induction gs arbitrary: d added)
  case Nil
  then show ?case by simp
next
  case (Cons x gs)
  show ?case
  proof (cases "x = g")
    case True
    with assms show ?thesis by (simp add: Let_def check_membership_def)
  next
    case False
    with Cons.prems have "g \<in> set gs" by simp
    from Cons.IH [OF this] show ?thesis using assms(2) by (simp add: Let_def)
  qed
qed


lemma restore_id_returns_for_root:
  assumes "tsi_switch_uid c = Some (PyBool True)" and "tsi_effective_uid c = 0"
    and "euid p = 0 \<or> ruid p = 0 \<or> suid p = 0"
  shows "\<exists>p2. restore_id c p = (Inr (), p2)"
  using assms
  by (auto simp: restore_id_def Let_def and_then_def os_setresuid_def os_setgid_def
      os_setgroups_def os_setegid_def privileged_def uid_permitted_def)

section \<open>Startup: switch\_uid and the effective user id\<close>

text \<open>
  C1 as the specification states it: a configuration with \<^verbatim>\<open>switch_uid\<close> false while
  the effective user id is 0 is rejected by \<^verbatim>\<open>initialize\<close>. It is not: for the root
  process and a configuration that holds \<^verbatim>\<open>False\<close>, \<^verbatim>\<open>initialize\<close> returns a
  configuration, in which \<^verbatim>\<open>tsi.switch_uid\<close> is \<^verbatim>\<open>True\<close>.
\<close>

theorem initialize_accepts_root_without_switch_uid:
  "tsi_switch_uid no_switch_config = Some (PyBool False) \<and> euid root_process = 0 \<and>
   map_sum id tsi_switch_uid (initialize example_UserCache no_switch_config root_process) =
     Inr (Some (PyBool True))"
  by (simp add: initialize_def no_switch_config_def example_config_def root_process_def Let_def)

text \<open>
  C1, amended: for every configuration in which \<^verbatim>\<open>switch_uid\<close> is set to false while
  the effective user id at startup is 0, \<^verbatim>\<open>initialize\<close> does not raise; it returns the
  configuration with \<^verbatim>\<open>tsi.switch_uid\<close> overridden to true and the effective ids of the
  process stored.
\<close>

theorem initialize_overrides_switch_uid_for_root:
  assumes "tsi_switch_uid c = Some (PyBool False)" and "euid p = 0"
  shows "\<exists>c'. initialize UserCache c p = Inr c' \<and> tsi_switch_uid c' = Some (PyBool True) \<and>
           tsi_effective_uid c' = 0 \<and> tsi_effective_gid c' = egid p"
  using assms by (simp add: initialize_def Let_def)

theorem initialize_overrides_switch_uid_for_root_witness:
  "\<exists>c'. initialize example_UserCache no_switch_config root_process = Inr c' \<and>
         tsi_switch_uid c' = Some (PyBool True) \<and> tsi_effective_uid c' = 0 \<and> tsi_effective_gid c' = 0"
  using initialize_overrides_switch_uid_for_root [of no_switch_config root_process example_UserCache]
  by (simp add: no_switch_config_def example_config_def root_process_def)

text \<open>
  C10: \<^verbatim>\<open>initialize\<close> returns a configuration in which \<^verbatim>\<open>tsi.switch_uid\<close> is true
  whenever the effective user id at the call was 0, whatever value was configured, and
  with a configuration that \<^verbatim>\<open>initialize\<close> returned, \<^verbatim>\<open>become_user\<close> never raises the
  error of running as root without setting uids, for any user, group list and process.
\<close>

theorem initialize_root_branch_unreachable:
  "\<exists>c'. initialize UserCache c p = Inr c' \<and>
         (euid p = 0 \<longrightarrow> tsi_switch_uid c' = Some (PyBool True)) \<and>
         (\<forall>user requested_groups q.
            fst (become_user user requested_groups c' q) \<noteq> Inl RootNotSettingUids)"
proof -
  obtain c' where c': "initialize UserCache c p = Inr c'"
    by (simp add: initialize_def Let_def)
  have sw: "tsi_switch_uid c' = Some (PyBool (config_get_switch_uid c \<or> euid p = 0))"
    and eu: "tsi_effective_uid c' = euid p"
    using c' by (auto simp: initialize_def Let_def config_get_switch_uid_def split: if_splits)
  have "fst (become_user user requested_groups c' q) \<noteq> Inl RootNotSettingUids"
    for user requested_groups q
    using become_user_root_error [of user requested_groups c' q] sw eu by auto
  with c' sw show ?thesis by auto
qed

theorem initialize_root_branch_unreachable_witness:
  "\<exists>c'. initialize example_UserCache no_switch_config root_process = Inr c' \<and>
         tsi_switch_uid c' = Some (PyBool True) \<and>
         fst (become_user ''alice'' [''users''] c' root_process) \<noteq> Inl RootNotSettingUids"
  using initialize_root_branch_unreachable [of example_UserCache no_switch_config root_process]
  by (auto simp: root_process_def)

section \<open>become\_user: the guards before the identity change\<close>

text \<open>
  C5: with \<^verbatim>\<open>switch_uid\<close> true, for every user name that the cache resolves to uid 0
  or to \<open>-1\<close>, \<^verbatim>\<open>become_user\<close> raises, and the process is as it was before the call:
  no call that changes the identity has been made.
\<close>

theorem become_user_rejects_root_and_unknown:
  assumes "tsi_switch_uid c = Some (PyBool True)"
    and "get_uid_4user (tsi_user_cache c) user = 0 \<or> get_uid_4user (tsi_user_cache c) user = - 1"
  shows "\<exists>e. become_user user requested_groups c p = (Inl e, p)"
  using assms by (auto simp: become_user_def Let_def split: list.splits)

theorem become_user_rejects_root_and_unknown_witness:
  "become_user ''root'' [''users''] example_config root_process =
     (Inl (CommandAsRoot ''root''), root_process) \<and>
   become_user ''ghost'' [''users''] example_config root_process =
     (Inl (UnknownUser ''ghost''), root_process)"
  using become_user_rejects_root_and_unknown [of example_config "''root''" "[''users'']" root_process]
    become_user_rejects_root_and_unknown [of example_config "''ghost''" "[''users'']" root_process]
  by (simp add: become_user_def example_config_def example_cache_def)




section \<open>Resolution of the primary and the supplementary groups\<close>

text \<open>
  C8: with \<^verbatim>\<open>fail_on_invalid_gids\<close> false, for every requested primary group that the
  cache resolves to \<open>-1\<close>, \<^verbatim>\<open>get_primary_group\<close> returns, and what it returns is the
  primary gid the cache gives for the user. This holds with \<^verbatim>\<open>enforce_os_gids\<close> true,
  as in the claim, and also with it false.
\<close>

theorem get_primary_group_unknown_uses_default:
  assumes "get_gid_4group cache primary = - 1" and "\<not> fail_on_invalid_gids"
  shows "get_primary_group primary user cache fail_on_invalid_gids c =
           Inr (get_gid_4user cache user)"
  using assms by (simp add: get_primary_group_def Let_def)

theorem get_primary_group_unknown_uses_default_witness:
  "get_gid_4group example_cache ''nogroup'' = - 1 \<and> tsi_enforce_os_gids example_config \<and>
   \<not> tsi_fail_on_invalid_gids example_config \<and>
   get_primary_group ''nogroup'' ''alice'' example_cache (tsi_fail_on_invalid_gids example_config)
     example_config = Inr 100"
  using get_primary_group_unknown_uses_default
    [of example_cache "''nogroup''" "tsi_fail_on_invalid_gids example_config" "''alice''" example_config]
  by (simp add: example_cache_def example_config_def)

text \<open>
  C2: with \<^verbatim>\<open>enforce_os_gids\<close> true and \<^verbatim>\<open>fail_on_invalid_gids\<close> false, the gid of a
  requested group that the user is not a member of should be skipped. The branch that
  logs "skipping it" has no \<^verbatim>\<open>continue\<close>, so the gid is stored all the same: alice is
  not a member of admins (600), and 600 is in the list that \<^verbatim>\<open>get_supplementary_groups\<close>
  returns and that \<^verbatim>\<open>become_user\<close> installs.
\<close>

theorem non_member_group_is_installed:
  "tsi_enforce_os_gids example_config \<and> \<not> tsi_fail_on_invalid_gids example_config \<and>
   get_gid_4group example_cache ''admins'' = 600 \<and> get_gid_4user example_cache ''alice'' = 100 \<and>
   ''alice'' \<notin> set (get_members_4group example_cache ''admins'') \<and>
   get_supplementary_groups [''users'', ''admins''] 100 ''alice'' example_config = Inr [100, 600] \<and>
   fst (become_user ''alice'' [''users'', ''admins''] example_config root_process) = Inr True \<and>
   groups (snd (become_user ''alice'' [''users'', ''admins''] example_config root_process)) = [100, 600]"
  by (simp add: example_config_def example_cache_def root_process_def get_supplementary_groups_def
      check_membership_def become_user_def get_primary_group_def
      change_identity_def and_then_def os_setgid_def os_setgroups_def os_setegid_def
      os_setresuid_def privileged_def os_environ_set_def Let_def)

text \<open>
  C9: two lists of requested groups that both hold \<^verbatim>\<open>DEFAULT_GID\<close>, any number of
  times and at any places, and that are the same list once the \<^verbatim>\<open>DEFAULT_GID\<close>
  entries are taken out, give the same result in \<^verbatim>\<open>get_supplementary_groups\<close>: the
  same exception, or lists with the same set of gids. Replacing several
  \<^verbatim>\<open>DEFAULT_GID\<close> entries by exactly one is the case in which the second list holds
  one.
\<close>

theorem default_gid_repeated:
  assumes "filter (\<lambda>g. g \<noteq> ''DEFAULT_GID'') gs = filter (\<lambda>g. g \<noteq> ''DEFAULT_GID'') gs'"
    and "''DEFAULT_GID'' \<in> set gs" and "''DEFAULT_GID'' \<in> set gs'"
  shows "map_sum id set (get_supplementary_groups gs primary user c) =
         map_sum id set (get_supplementary_groups gs' primary user c)"
  using assms by (simp add: get_supplementary_groups_set)

theorem default_gid_repeated_witness:
  "map_sum id set
     (get_supplementary_groups [''users'', ''DEFAULT_GID'', ''admins'', ''DEFAULT_GID''] 100 ''alice''
        example_config) =
   map_sum id set
     (get_supplementary_groups [''users'', ''admins'', ''DEFAULT_GID''] 100 ''alice'' example_config) \<and>
   get_supplementary_groups [''users'', ''admins'', ''DEFAULT_GID''] 100 ''alice'' example_config =
     Inr [100, 600, 500]"
proof -
  have "get_supplementary_groups [''users'', ''admins'', ''DEFAULT_GID''] 100 ''alice'' example_config =
     Inr [100, 600, 500]"
    by (simp add: get_supplementary_groups_def example_config_def example_cache_def
        check_membership_def Let_def)
  then show ?thesis
    using default_gid_repeated
      [of "[''users'', ''DEFAULT_GID'', ''admins'', ''DEFAULT_GID'']"
          "[''users'', ''admins'', ''DEFAULT_GID'']" 100 "''alice''" example_config]
    by simp
qed

text \<open>
  C7 as the specification states it: with \<^verbatim>\<open>enforce_os_gids\<close> and
  \<^verbatim>\<open>fail_on_invalid_gids\<close> true, a requested supplementary group that the user is not
  a member of makes \<^verbatim>\<open>become_user\<close> raise. When the first selector is \<^verbatim>\<open>NONE\<close> the
  rest of the list is not read: alice is not a member of admins, and the request
  \<^verbatim>\<open>NONE\<close>, \<^verbatim>\<open>admins\<close> succeeds and switches the process to alice.
\<close>

theorem become_user_none_ignores_membership:
  "tsi_switch_uid strict_config = Some (PyBool True) \<and>
   tsi_enforce_os_gids strict_config \<and> tsi_fail_on_invalid_gids strict_config \<and>
   ''admins'' \<in> set (tl [''NONE'', ''admins'']) \<and>
   ''alice'' \<notin> set (get_members_4group (tsi_user_cache strict_config) ''admins'') \<and>
   get_gid_4group (tsi_user_cache strict_config) ''admins'' \<noteq>
     get_gid_4user (tsi_user_cache strict_config) ''alice'' \<and>
   fst (become_user ''alice'' [''NONE'', ''admins''] strict_config root_process) = Inr True \<and>
   euid (snd (become_user ''alice'' [''NONE'', ''admins''] strict_config root_process)) = 1001"
  by (simp add: strict_config_def example_config_def example_cache_def root_process_def
      become_user_def change_identity_def and_then_def
      os_setgid_def os_setgroups_def os_setegid_def
      os_setresuid_def privileged_def os_environ_set_def Let_def)

text \<open>
  C7, amended: with \<^verbatim>\<open>switch_uid\<close>, \<^verbatim>\<open>enforce_os_gids\<close> and \<^verbatim>\<open>fail_on_invalid_gids\<close>
  true and a first selector other than \<^verbatim>\<open>NONE\<close>, for every named group of the request
  (any entry but the selector \<^verbatim>\<open>DEFAULT_GID\<close>) whose gid is not the primary gid of the
  user and whose member list does not hold the user, \<^verbatim>\<open>become_user\<close> raises, and the
  process is as it was before the call: none of the calls that set the identity has
  been made.
\<close>

theorem become_user_refuses_non_member:
  assumes "tsi_switch_uid c = Some (PyBool True)"
    and "tsi_enforce_os_gids c" and "tsi_fail_on_invalid_gids c"
    and "hd requested_groups \<noteq> ''NONE''"
    and "g \<in> set requested_groups" and "g \<noteq> ''DEFAULT_GID''"
    and "user \<notin> set (get_members_4group (tsi_user_cache c) g)"
    and "get_gid_4group (tsi_user_cache c) g \<noteq> get_gid_4user (tsi_user_cache c) user"
  shows "\<exists>e. become_user user requested_groups c p = (Inl e, p)"
proof -
  from assms(5) obtain primary rest where rg: "requested_groups = primary # rest"
    by (cases requested_groups) auto
  with assms(4) have pn: "primary \<noteq> ''NONE''" by simp
  have "get_supplementary_groups requested_groups new_gid user c \<noteq> Inr l" for new_gid l
  proof -
    from sup_gids_loop_refuses [OF assms(2,3,5,6,7,8), of "[(new_gid, True)]" False]
    obtain e where "sup_gids_loop c user requested_groups [(new_gid, True)] False = Inl e"
      by blast
    then show ?thesis by (simp add: get_supplementary_groups_def)
  qed
  then show ?thesis
    using assms(1) rg pn
    by (auto simp: become_user_def Let_def split: sum.splits)
qed

theorem become_user_refuses_non_member_witness:
  "become_user ''alice'' [''users'', ''admins''] strict_config root_process =
     (Inl (NotAMember ''alice'' ''admins''), root_process)"
proof -
  have "\<exists>e. become_user ''alice'' [''users'', ''admins''] strict_config root_process = (Inl e, root_process)"
    using become_user_refuses_non_member
      [of strict_config "[''users'', ''admins'']" "''admins''" "''alice''" root_process]
    by (simp add: strict_config_def example_config_def example_cache_def)
  moreover have "fst (become_user ''alice'' [''users'', ''admins''] strict_config root_process) =
      Inl (NotAMember ''alice'' ''admins'')"
    by (simp add: strict_config_def example_config_def example_cache_def become_user_def
        get_primary_group_def get_supplementary_groups_def check_membership_def Let_def)
  ultimately show ?thesis by auto
qed

section \<open>The dispatcher\<close>

text \<open>
  C4 as the specification states it: of several tag lines in a message, the first one
  names the command. The loop runs over the registry, not over the lines: in a
  message whose first line is the tag of \<^verbatim>\<open>TSI_LS\<close> and whose second line is the tag of
  \<^verbatim>\<open>TSI_PING\<close>, the command is \<^verbatim>\<open>TSI_PING\<close>.
\<close>

theorem select_command_ignores_line_order:
  "map_option fst (select_command init_functions ''#TSI_LS\<newline>#TSI_PING\<newline>'') = Some ''TSI_PING'' \<and>
   first_tag_line_command init_functions ''#TSI_LS\<newline>#TSI_PING\<newline>'' = Some ''TSI_LS''"
  by code_simp

text \<open>
  C4, amended: the dispatcher selects the command that comes first in the order of
  the registry among the commands whose tag line occurs in the message, wherever in
  the message the tag lines stand.
\<close>

theorem select_command_registry_order:
  "select_command functions message = Some (cmd, f) \<longleftrightarrow>
     (\<exists>before after. functions = before @ (cmd, f) # after \<and> have_cmd cmd message \<and>
        (\<forall>x \<in> set before. \<not> have_cmd (fst x) message))"
proof (induction "functions")
  case Nil
  then show ?case by simp
next
  case (Cons x fs)
  obtain c h where x: "x = (c, h)" by (cases x)
  show ?case
  proof (cases "have_cmd c message")
    case True
    show ?thesis
    proof
      assume "select_command (x # fs) message = Some (cmd, f)"
      with True x have "(c, h) = (cmd, f)" by simp
      with True x have "x # fs = [] @ (cmd, f) # fs \<and> have_cmd cmd message \<and>
        (\<forall>y \<in> set []. \<not> have_cmd (fst y) message)" by simp
      then show "\<exists>before after. x # fs = before @ (cmd, f) # after \<and> have_cmd cmd message \<and>
        (\<forall>x \<in> set before. \<not> have_cmd (fst x) message)" by blast
    next
      assume "\<exists>before after. x # fs = before @ (cmd, f) # after \<and> have_cmd cmd message \<and>
        (\<forall>x \<in> set before. \<not> have_cmd (fst x) message)"
      then obtain before after where b: "x # fs = before @ (cmd, f) # after"
        and n: "\<forall>x \<in> set before. \<not> have_cmd (fst x) message" by blast
      have "before = []"
      proof (cases before)
        case Nil then show ?thesis .
      next
        case (Cons y ys)
        with b have "y = x" by simp
        with n Cons True x show ?thesis by simp
      qed
      with b x have "(c, h) = (cmd, f)" by simp
      with True x show "select_command (x # fs) message = Some (cmd, f)" by simp
    qed
  next
    case False
    have "(\<exists>before after. x # fs = before @ (cmd, f) # after \<and> have_cmd cmd message \<and>
        (\<forall>x \<in> set before. \<not> have_cmd (fst x) message)) \<longleftrightarrow>
      (\<exists>before after. fs = before @ (cmd, f) # after \<and> have_cmd cmd message \<and>
        (\<forall>x \<in> set before. \<not> have_cmd (fst x) message))" (is "?L \<longleftrightarrow> ?R")
    proof
      assume ?L
      then obtain before after where b: "x # fs = before @ (cmd, f) # after"
        and hc: "have_cmd cmd message"
        and n: "\<forall>x \<in> set before. \<not> have_cmd (fst x) message" by blast
      show ?R
      proof (cases before)
        case Nil
        with b x have "c = cmd" by simp
        with hc False show ?thesis by simp
      next
        case (Cons y ys)
        with b have "fs = ys @ (cmd, f) # after" by simp
        moreover from n Cons have "\<forall>x \<in> set ys. \<not> have_cmd (fst x) message" by simp
        ultimately show ?thesis using hc by blast
      qed
    next
      assume ?R
      then obtain before after where b: "fs = before @ (cmd, f) # after"
        and hc: "have_cmd cmd message"
        and n: "\<forall>x \<in> set before. \<not> have_cmd (fst x) message" by blast
      from b have "x # fs = (x # before) @ (cmd, f) # after" by simp
      moreover from n False x have "\<forall>y \<in> set (x # before). \<not> have_cmd (fst y) message" by simp
      ultimately show ?L using hc by blast
    qed
    with Cons.IH False x show ?thesis by simp
  qed
qed

theorem select_command_registry_order_witness:
  "have_cmd ''TSI_LS'' ''#TSI_LS\<newline>#TSI_PING\<newline>'' \<and>
   select_command init_functions ''#TSI_LS\<newline>#TSI_PING\<newline>'' = Some (''TSI_PING'', ping)"
proof -
  have ini: "init_functions = [] @ (''TSI_PING'', ping) # tl init_functions"
    by (simp add: init_functions_def)
  have hc: "have_cmd ''TSI_PING'' ''#TSI_LS\<newline>#TSI_PING\<newline>''" by code_simp
  have "\<exists>before after. init_functions = before @ (''TSI_PING'', ping) # after \<and>
      have_cmd ''TSI_PING'' ''#TSI_LS\<newline>#TSI_PING\<newline>'' \<and>
      (\<forall>x \<in> set before. \<not> have_cmd (fst x) ''#TSI_LS\<newline>#TSI_PING\<newline>'')"
    using ini hc by (metis empty_iff list.set(1))
  then have "select_command init_functions ''#TSI_LS\<newline>#TSI_PING\<newline>'' = Some (''TSI_PING'', ping)"
    using select_command_registry_order
      [of init_functions "''#TSI_LS\<newline>#TSI_PING\<newline>''" "''TSI_PING''" ping] by blast
  moreover have "have_cmd ''TSI_LS'' ''#TSI_LS\<newline>#TSI_PING\<newline>''" by code_simp
  ultimately show ?thesis by simp
qed



end
